theory Spec2Isabelle
  imports Main "HOL-Library.AList"
begin

section \<open>Hashy: the policy layer of src/index.js\<close>

text \<open>
  The module is a thin policy layer over a bcrypt primitive: \<open>hash\<close>, \<open>verify\<close>,
  \<open>getInfo\<close> and \<open>needsRehash\<close>, the two regular expressions that read the tag and the
  cost of a hash string, and the helper \<open>assign\<close>. The exported \<open>hash\<close> and
  \<open>verify\<close> are these functions behind \<open>makeAsyncWrapper\<close>, which hands their
  result to promise-toolbox's \<open>asCallback\<close>; that library is not part of the source,
  and the wrapper is not modelled.

  Modelling decisions, all visible in the definitions below:
  \<^item> a JavaScript string is a \<open>string\<close>; a thrown \<open>new Error(msg)\<close> is the value
    \<open>Error msg\<close>, and a call that may throw returns \<open>error + 'a\<close> (\<open>Inl\<close> the error);
  \<^item> a number is an \<open>int\<close> (costs are small integers; NaN, infinities and fractions
    are outside the model); a property read is an \<open>int option\<close>, \<open>None\<close> being
    \<open>undefined\<close>;
  \<^item> an options object is the list of its own enumerable properties, in enumeration
    order, each holding a number (there is no prototype chain); objects live in a
    store, since \<open>assign\<close> writes into its target;
  \<^item> an optional argument is an \<open>option\<close>, \<open>None\<close> being an omitted (or
    \<open>undefined\<close>) argument;
  \<^item> a promise is represented by the way it settles.
\<close>

subsection \<open>Values, errors, promises\<close>

datatype error = Error string

datatype 'a promise = Resolved 'a | Rejected error

text \<open>The two messages the module throws.\<close>

definition InvalidHashFormat :: "string \<Rightarrow> error" where
  "InvalidHashFormat h = Error (''invalid hash: '' @ h)"

definition UnsupportedAlgorithm :: error where
  "UnsupportedAlgorithm = Error ''unsupported algorithm''"

text \<open>Truthiness of a property read, \<open>a || b\<close> and \<open>a < b\<close> on such reads. A
  comparison with \<open>undefined\<close> is false.\<close>

definition truthy :: "int option \<Rightarrow> bool" where
  "truthy v = (case v of None \<Rightarrow> False | Some n \<Rightarrow> n \<noteq> 0)"

definition js_or :: "int option \<Rightarrow> int option \<Rightarrow> int option" where
  "js_or a b = (if truthy a then a else b)"

definition js_lt :: "int option \<Rightarrow> int option \<Rightarrow> bool" where
  "js_lt a b = (case (a, b) of (Some x, Some y) \<Rightarrow> x < y | _ \<Rightarrow> False)"

subsection \<open>Objects and the store\<close>

type_synonym addr = nat
type_synonym obj = "(string \<times> int) list"

text \<open>\<open>globalOptions\<close> has the single property \<open>bcrypt\<close>, a reference to the object
  of bcrypt defaults; the embedding application may mutate that object or point the
  property at another one.\<close>

record state =
  objs :: "addr \<Rightarrow> obj"
  next_addr :: addr
  globalOptions_bcrypt :: addr

definition get_prop :: "state \<Rightarrow> addr \<Rightarrow> string \<Rightarrow> int option" where
  "get_prop s a key = map_of (objs s a) key"

definition set_prop :: "state \<Rightarrow> addr \<Rightarrow> string \<Rightarrow> int \<Rightarrow> state" where
  "set_prop s a key v = s\<lparr>objs := (objs s)(a := AList.update key v (objs s a))\<rparr>"

text \<open>An object literal allocates a fresh object; \<open>{}\<close> is the empty one.\<close>

definition alloc :: "state \<Rightarrow> obj \<Rightarrow> addr \<times> state" where
  "alloc s ob = (next_addr s, s\<lparr>objs := (objs s)(next_addr s := ob), next_addr := Suc (next_addr s)\<rparr>)"

definition new_object :: "state \<Rightarrow> addr \<times> state" where
  "new_object s = alloc s []"

text \<open>The module's initial state: \<open>globalOptions.bcrypt = {cost: 10}\<close>.\<close>

definition initial_state :: state where
  "initial_state = \<lparr>objs = (\<lambda>_. [])(0 := [(''cost'', 10)]), next_addr = 1, globalOptions_bcrypt = 0\<rparr>"

text \<open>\<open>assign(target, source...)\<close>: for every source in turn, for every own key of the
  source, \<open>target[key] = source[key]\<close>. A source that is \<open>undefined\<close> has no keys.\<close>

definition assign_key :: "addr \<Rightarrow> addr \<Rightarrow> string \<Rightarrow> state \<Rightarrow> state" where
  "assign_key target source key s =
     (case get_prop s source key of
        Some v \<Rightarrow> set_prop s target key v
      | None \<Rightarrow> s)"

fun assign :: "state \<Rightarrow> addr \<Rightarrow> addr option list \<Rightarrow> state" where
  "assign s target [] = s"
| "assign s target (None # sources) = assign s target sources"
| "assign s target (Some source # sources) =
     assign (fold (assign_key target source) (map fst (objs s source)) s) target sources"

text \<open>The own properties of an argument that is an object or \<open>undefined\<close>, which
  has none.\<close>

definition props :: "state \<Rightarrow> addr option \<Rightarrow> (string \<rightharpoonup> int)" where
  "props s src = (case src of None \<Rightarrow> Map.empty | Some a \<Rightarrow> map_of (objs s a))"

subsection \<open>The regular expressions\<close>

definition is_digit :: "char \<Rightarrow> bool" where
  "is_digit c = (c \<in> set ''0123456789'')"

text \<open>\<open>[^$]+\$\<close> at the start of a string: the token and what follows the closing
  delimiter.\<close>

definition token :: "string \<Rightarrow> (string \<times> string) option" where
  "token s =
     (let t = takeWhile (\<lambda>c. c \<noteq> CHR ''$'') s; r = dropWhile (\<lambda>c. c \<noteq> CHR ''$'') s
      in if t \<noteq> [] \<and> r \<noteq> [] then Some (t, tl r) else None)"

text \<open>\<open>(\d+)\$\<close> at the start of a string: the digits.\<close>

definition digits_field :: "string \<Rightarrow> string option" where
  "digits_field s =
     (let d = takeWhile is_digit s; r = dropWhile is_digit s
      in if d \<noteq> [] \<and> r \<noteq> [] \<and> hd r = CHR ''$'' then Some d else None)"

text \<open>\<open>/^\$([^$]+)\$/.exec(hash)\<close>, reduced to its capture group.\<close>

definition exec_ALGO_RE :: "string \<Rightarrow> string option" where
  "exec_ALGO_RE h =
     (case h of
        [] \<Rightarrow> None
      | c # s \<Rightarrow> if c = CHR ''$'' then map_option fst (token s) else None)"

text \<open>\<open>/^\$[^$]+\$(\d+)\$/.exec(hash)\<close>, reduced to its capture group.\<close>

definition exec_ROUNDS_RE :: "string \<Rightarrow> string option" where
  "exec_ROUNDS_RE h =
     (case h of
        [] \<Rightarrow> None
      | c # s \<Rightarrow>
          if c = CHR ''$'' then (case token s of None \<Rightarrow> None | Some (t, r) \<Rightarrow> digits_field r)
          else None)"

text \<open>Unary plus on a string of decimal digits, as an exact integer. The source's
  number is a double, so the two agree for digit strings that denote less than \<open>2^53\<close>
  (a cost field has two digits) and may differ beyond.\<close>

definition to_number :: "string \<Rightarrow> int" where
  "to_number ds = foldl (\<lambda>n c. 10 * n + (int (of_char c) - 48)) 0 ds"

subsection \<open>The bcrypt module\<close>

text \<open>The variable \<open>bcrypt\<close> holds three functions. \<open>compare\<close> and \<open>hash\<close> are the
  external primitive behind a promise; \<open>getRounds\<close> is the native module's or, in
  the fallback branch, the function written in the source.\<close>

record bcrypt_module =
  bcrypt_compare :: "string \<Rightarrow> string \<Rightarrow> bool promise"
  bcrypt_getRounds :: "string \<Rightarrow> error + int"
  bcrypt_hash :: "string \<Rightarrow> int option \<Rightarrow> string promise"

definition getRounds :: "string \<Rightarrow> error + int" where
  "getRounds h =
     (case exec_ROUNDS_RE h of
        None \<Rightarrow> Inl (InvalidHashFormat h)
      | Some ds \<Rightarrow> Inr (to_number ds))"

text \<open>The fallback branch wraps the two functions of twin-bcrypt with the local
  \<open>promisify\<close>: the promise resolves with the value handed to the callback, and a
  throw inside the promise's executor rejects it. The two functions are parameters.\<close>

definition promisify :: "('a \<Rightarrow> 'b \<Rightarrow> error + 'c) \<Rightarrow> 'a \<Rightarrow> 'b \<Rightarrow> 'c promise" where
  "promisify fn a b = (case fn a b of Inl e \<Rightarrow> Rejected e | Inr v \<Rightarrow> Resolved v)"

definition fallback_module ::
  "(string \<Rightarrow> string \<Rightarrow> error + bool) \<Rightarrow> (string \<Rightarrow> int option \<Rightarrow> error + string) \<Rightarrow> bcrypt_module" where
  "fallback_module compare_fn hash_fn =
     \<lparr>bcrypt_compare = promisify compare_fn,
      bcrypt_getRounds = getRounds,
      bcrypt_hash = promisify hash_fn\<rparr>"

text \<open>Modelled from the spec: the primitive itself is an external library and is not
  under src/. This stand-in follows the hash string format of the spec's section 6,
  \<open>$<tag>$<cost, two-digit>$<22-char salt><31-char digest>\<close>: it writes the cost it
  is given into the cost field and rejects a missing or out-of-range cost. Its payload
  is a placeholder. It serves the concrete examples only.\<close>

definition two_digits :: "int \<Rightarrow> string" where
  "two_digits c = [''0123456789'' ! nat (c div 10), ''0123456789'' ! nat (c mod 10)]"

definition reference_payload :: "string \<Rightarrow> string" where
  "reference_payload password = take 53 (password @ replicate 53 CHR ''.'')"

definition reference_hash :: "string \<Rightarrow> int option \<Rightarrow> error + string" where
  "reference_hash password cost =
     (case cost of
        None \<Rightarrow> Inl (Error ''rounds required'')
      | Some c \<Rightarrow>
          if 4 \<le> c \<and> c \<le> 31 then Inr (''$2y$'' @ two_digits c @ ''$'' @ reference_payload password)
          else Inl (Error ''invalid rounds''))"

definition reference_compare :: "string \<Rightarrow> string \<Rightarrow> error + bool" where
  "reference_compare password h = Inr (drop 7 h = reference_payload password)"

definition reference_module :: bcrypt_module where
  "reference_module = fallback_module reference_compare reference_hash"

subsection \<open>Tags and algorithms\<close>

definition algosById :: "(string \<times> string list) list \<Rightarrow> (string \<rightharpoonup> string)" where
  "algosById idsByAlgo =
     fold (\<lambda>(algo, ids) m. fold (\<lambda>i m. m(i \<mapsto> algo)) ids m) idsByAlgo Map.empty"

definition IDENTS_TO_ALGOS :: "string \<rightharpoonup> string" where
  "IDENTS_TO_ALGOS = algosById [(''bcrypt'', [''2'', ''2a'', ''2x'', ''2y''])]"

definition getAlgoId :: "string \<Rightarrow> error + string" where
  "getAlgoId h =
     (case exec_ALGO_RE h of
        None \<Rightarrow> Inl (InvalidHashFormat h)
      | Some t \<Rightarrow> Inr t)"

definition DEFAULT_ALGO :: string where
  "DEFAULT_ALGO = ''bcrypt''"

text \<open>\<open>algo || (algo = DEFAULT_ALGO)\<close>: an omitted or empty algorithm is the default.\<close>

definition default_algo :: "string option \<Rightarrow> string" where
  "default_algo algo =
     (case algo of None \<Rightarrow> DEFAULT_ALGO | Some a \<Rightarrow> if a = [] then DEFAULT_ALGO else a)"

subsection \<open>The four operations\<close>

record info =
  info_algo :: string
  info_id :: string
  info_options :: obj

definition getInfo :: "bcrypt_module \<Rightarrow> string \<Rightarrow> error + info" where
  "getInfo bcrypt h =
     (case getAlgoId h of
        Inl e \<Rightarrow> Inl e
      | Inr algoId \<Rightarrow>
          if IDENTS_TO_ALGOS algoId = Some ''bcrypt'' then
            (case bcrypt_getRounds bcrypt h of
               Inl e \<Rightarrow> Inl e
             | Inr c \<Rightarrow> Inr \<lparr>info_algo = ''bcrypt'', info_id = algoId, info_options = [(''cost'', c)]\<rparr>)
          else Inr \<lparr>info_algo = ''unknown'', info_id = ''unknown'', info_options = []\<rparr>)"

text \<open>\<open>hash\<close> returns what the call returns or throws, and the store after the call.\<close>

definition hash ::
  "bcrypt_module \<Rightarrow> state \<Rightarrow> string \<Rightarrow> string option \<Rightarrow> addr option \<Rightarrow> (error + string promise) \<times> state" where
  "hash bcrypt s password algo options =
     (if default_algo algo = ''bcrypt'' then
        (let (target, s1) = new_object s;
             s2 = assign s1 target [options, Some (globalOptions_bcrypt s1)]
         in (Inr (bcrypt_hash bcrypt password (get_prop s2 target ''cost'')), s2))
      else (Inl UnsupportedAlgorithm, s))"

definition needsRehash ::
  "bcrypt_module \<Rightarrow> state \<Rightarrow> string \<Rightarrow> string option \<Rightarrow> addr option \<Rightarrow> error + bool" where
  "needsRehash bcrypt s h algo options =
     (case getInfo bcrypt h of
        Inl e \<Rightarrow> Inl e
      | Inr i \<Rightarrow>
          if info_algo i \<noteq> default_algo algo then Inr True
          else if default_algo algo = ''bcrypt'' then
            Inr (info_id i \<noteq> ''2y'' \<or>
                 js_lt (map_of (info_options i) ''cost'')
                   (js_or (case options of None \<Rightarrow> None | Some a \<Rightarrow> get_prop s a ''cost'')
                          (get_prop s (globalOptions_bcrypt s) ''cost'')))
          else Inr False)"

definition verify :: "bcrypt_module \<Rightarrow> string \<Rightarrow> string \<Rightarrow> error + bool promise" where
  "verify bcrypt password h =
     (case getInfo bcrypt h of
        Inl e \<Rightarrow> Inl e
      | Inr i \<Rightarrow>
          if info_algo i = ''bcrypt'' then Inr (bcrypt_compare bcrypt password h)
          else Inl UnsupportedAlgorithm)"

subsection \<open>The spec's wording, for comparison\<close>

text \<open>The grammar of the spec's section 4.2: a delimiter, a token that runs until the
  next delimiter, and that delimiter. A token is a non-empty run of characters other
  than the delimiter; \<open>matches_grammar h tag\<close> says that \<open>h\<close> matches with the token
  \<open>tag\<close>.\<close>

definition matches_grammar :: "string \<Rightarrow> string \<Rightarrow> bool" where
  "matches_grammar h tag =
     (tag \<noteq> [] \<and> CHR ''$'' \<notin> set tag \<and> (\<exists>rest. h = CHR ''$'' # tag @ CHR ''$'' # rest))"

text \<open>The cost field of section 4.2: decimal digits directly after the tag's
  delimiter, closed by a delimiter.\<close>

definition has_cost_field :: "string \<Rightarrow> string \<Rightarrow> string \<Rightarrow> bool" where
  "has_cost_field h tag ds =
     (ds \<noteq> [] \<and> (\<forall>c \<in> set ds. is_digit c) \<and>
      (\<exists>rest. h = CHR ''$'' # tag @ CHR ''$'' # ds @ CHR ''$'' # rest))"

text \<open>The staleness rule for bcrypt as section 4.6 words it.\<close>

definition spec_bcrypt_stale :: "string \<Rightarrow> int \<Rightarrow> int \<Rightarrow> int \<Rightarrow> bool" where
  "spec_bcrypt_stale tag cost options_cost default_cost =
     (tag \<noteq> ''2y'' \<or> cost < max options_cost default_cost)"

subsection \<open>The store after a call\<close>

text \<open>Only \<open>hash\<close> writes to an object (through \<open>assign\<close>); the other three
  operations assign to nothing but their own parameters and local variables.\<close>

datatype call =
  Hash string "string option" "addr option"
  | Verify string string
  | GetInfo string
  | NeedsRehash string "string option" "addr option"

definition state_after :: "bcrypt_module \<Rightarrow> state \<Rightarrow> call \<Rightarrow> state" where
  "state_after bcrypt s c =
     (case c of
        Hash password algo options \<Rightarrow> snd (hash bcrypt s password algo options)
      | Verify password h \<Rightarrow> s
      | GetInfo h \<Rightarrow> s
      | NeedsRehash h algo options \<Rightarrow> s)"

subsection \<open>Concrete inputs\<close>

text \<open>A hash string of the bcrypt format with tag \<open>2y\<close> and cost 7, and the module's
  initial state after the caller has allocated one options object, which then has
  address 1.\<close>

definition example_hash :: string where
  "example_hash = ''$2y$07$abcdefghijklmnopqrstuuABCDEFGHIJKLMNOPQRSTUVWXYZ01234''"

definition example_state :: "obj \<Rightarrow> state" where
  "example_state ob = snd (alloc initial_state ob)"

text \<open>A module whose \<open>getRounds\<close> is not the source's, as the native module's is
  not: this one is stricter and also wants the string to have the 60 characters of a
  bcrypt hash. It is an illustration; the native module's own \<open>getRounds\<close> is
  external.\<close>

definition strict_getRounds :: "string \<Rightarrow> error + int" where
  "strict_getRounds h =
     (case getRounds h of
        Inl e \<Rightarrow> Inl e
      | Inr c \<Rightarrow> if length h = 60 then Inr c else Inl (Error ''invalid hash provided''))"

definition strict_module :: bcrypt_module where
  "strict_module = reference_module\<lparr>bcrypt_getRounds := strict_getRounds\<rparr>"

section \<open>Basic facts\<close>

lemma IDENTS_TO_ALGOS_bcrypt:
  "IDENTS_TO_ALGOS t = Some ''bcrypt'' \<longleftrightarrow> t \<in> {''2'', ''2a'', ''2x'', ''2y''}"
  by (auto simp: IDENTS_TO_ALGOS_def algosById_def)

subsection \<open>The regular expressions match the grammar\<close>

lemma token_Some_iff:
  "token s = Some (t, r) \<longleftrightarrow> t \<noteq> [] \<and> CHR ''$'' \<notin> set t \<and> s = t @ CHR ''$'' # r"
proof
  assume a: "token s = Some (t, r)"
  let ?p = "\<lambda>c. c \<noteq> CHR ''$''"
  from a have t: "t = takeWhile ?p s" and ne: "t \<noteq> []" and d: "dropWhile ?p s \<noteq> []"
    and r: "r = tl (dropWhile ?p s)"
    by (auto simp: token_def Let_def split: if_splits)
  from d have "hd (dropWhile ?p s) = CHR ''$''"
    using hd_dropWhile[of ?p s] by auto
  with d r have "dropWhile ?p s = CHR ''$'' # r"
    by (cases "dropWhile ?p s") auto
  then have "s = t @ CHR ''$'' # r"
    using takeWhile_dropWhile_id[of ?p s] t by simp
  moreover have "CHR ''$'' \<notin> set t"
    using t set_takeWhileD[of "CHR ''$''" ?p s] by auto
  ultimately show "t \<noteq> [] \<and> CHR ''$'' \<notin> set t \<and> s = t @ CHR ''$'' # r"
    using ne by simp
next
  assume a: "t \<noteq> [] \<and> CHR ''$'' \<notin> set t \<and> s = t @ CHR ''$'' # r"
  then have "\<And>x. x \<in> set t \<Longrightarrow> x \<noteq> CHR ''$''" by auto
  then have "takeWhile (\<lambda>c. c \<noteq> CHR ''$'') (t @ CHR ''$'' # r) = t"
    "dropWhile (\<lambda>c. c \<noteq> CHR ''$'') (t @ CHR ''$'' # r) = CHR ''$'' # r"
    by (simp_all add: takeWhile_append2 dropWhile_append2)
  with a show "token s = Some (t, r)"
    by (simp add: token_def Let_def)
qed

lemma exec_ALGO_RE_Some_iff: "exec_ALGO_RE h = Some t \<longleftrightarrow> matches_grammar h t"
  by (cases h) (auto simp: exec_ALGO_RE_def matches_grammar_def token_Some_iff)

lemma no_grammar_iff: "(\<forall>t. \<not> matches_grammar h t) \<longleftrightarrow> exec_ALGO_RE h = None"
  by (cases "exec_ALGO_RE h") (auto simp: exec_ALGO_RE_Some_iff[symmetric])

lemma digits_field_Some_iff:
  "digits_field s = Some ds \<longleftrightarrow> ds \<noteq> [] \<and> (\<forall>c \<in> set ds. is_digit c) \<and> (\<exists>r. s = ds @ CHR ''$'' # r)"
proof
  assume a: "digits_field s = Some ds"
  from a have t: "ds = takeWhile is_digit s" and ne: "ds \<noteq> []" and d: "dropWhile is_digit s \<noteq> []"
    and h: "hd (dropWhile is_digit s) = CHR ''$''"
    by (auto simp: digits_field_def Let_def split: if_splits)
  from d h obtain r where "dropWhile is_digit s = CHR ''$'' # r"
    by (cases "dropWhile is_digit s") auto
  then have "s = ds @ CHR ''$'' # r"
    using takeWhile_dropWhile_id[of is_digit s] t by simp
  moreover have "\<forall>c \<in> set ds. is_digit c"
    using t set_takeWhileD[of _ is_digit s] by auto
  ultimately show "ds \<noteq> [] \<and> (\<forall>c \<in> set ds. is_digit c) \<and> (\<exists>r. s = ds @ CHR ''$'' # r)"
    using ne by blast
next
  assume a: "ds \<noteq> [] \<and> (\<forall>c \<in> set ds. is_digit c) \<and> (\<exists>r. s = ds @ CHR ''$'' # r)"
  then obtain r where s: "s = ds @ CHR ''$'' # r" by blast
  have nd: "\<not> is_digit CHR ''$''" by (simp add: is_digit_def)
  from a have "\<And>x. x \<in> set ds \<Longrightarrow> is_digit x" by auto
  then have "takeWhile is_digit s = ds" "dropWhile is_digit s = CHR ''$'' # r"
    using nd by (simp_all add: s takeWhile_append2 dropWhile_append2)
  with a show "digits_field s = Some ds"
    by (simp add: digits_field_def Let_def)
qed

lemma exec_ROUNDS_RE_Some_iff:
  "exec_ROUNDS_RE h = Some ds \<longleftrightarrow> (\<exists>t. matches_grammar h t \<and> has_cost_field h t ds)"
proof
  assume a: "exec_ROUNDS_RE h = Some ds"
  then obtain s where h: "h = CHR ''$'' # s" 
    by (cases h) (auto simp: exec_ROUNDS_RE_def split: if_splits)
  with a obtain t r where tk: "token s = Some (t, r)" and df: "digits_field r = Some ds"
    by (auto simp: exec_ROUNDS_RE_def split: option.splits)
  from tk have "t \<noteq> []" "CHR ''$'' \<notin> set t" "s = t @ CHR ''$'' # r"
    by (simp_all add: token_Some_iff)
  moreover from df obtain r' where "ds \<noteq> []" "\<forall>c \<in> set ds. is_digit c" "r = ds @ CHR ''$'' # r'"
    by (auto simp: digits_field_Some_iff)
  ultimately have "matches_grammar h t \<and> has_cost_field h t ds"
    using h by (simp add: matches_grammar_def has_cost_field_def)
  then show "\<exists>t. matches_grammar h t \<and> has_cost_field h t ds" ..
next
  assume "\<exists>t. matches_grammar h t \<and> has_cost_field h t ds"
  then obtain t r where t: "t \<noteq> []" "CHR ''$'' \<notin> set t" and ds: "ds \<noteq> []" "\<forall>c \<in> set ds. is_digit c"
    and h: "h = CHR ''$'' # t @ CHR ''$'' # ds @ CHR ''$'' # r"
    by (auto simp: matches_grammar_def has_cost_field_def)
  from t have "token (t @ CHR ''$'' # ds @ CHR ''$'' # r) = Some (t, ds @ CHR ''$'' # r)"
    by (simp add: token_Some_iff)
  moreover from ds have "digits_field (ds @ CHR ''$'' # r) = Some ds"
    by (simp add: digits_field_Some_iff)
  ultimately show "exec_ROUNDS_RE h = Some ds"
    by (simp add: exec_ROUNDS_RE_def h)
qed

lemma matches_grammar_unique: "matches_grammar h t \<Longrightarrow> matches_grammar h t' \<Longrightarrow> t = t'"
  by (metis exec_ALGO_RE_Some_iff option.inject)

subsection \<open>What \<open>assign\<close> writes\<close>

lemma assign_key_other: "a \<noteq> t \<Longrightarrow> objs (assign_key t src k s) a = objs s a"
  by (simp add: assign_key_def set_prop_def split: option.splits)

lemma assign_key_fields:
  "next_addr (assign_key t src k s) = next_addr s"
  "globalOptions_bcrypt (assign_key t src k s) = globalOptions_bcrypt s"
  by (simp_all add: assign_key_def set_prop_def split: option.splits)

lemma assign_key_target:
  "src \<noteq> t \<Longrightarrow>
   map_of (objs (assign_key t src k s) t) = map_of (objs s t) ++ (map_of (objs s src) |` {k})"
  by (rule ext)
     (simp add: assign_key_def set_prop_def get_prop_def update_conv' map_add_def restrict_map_def
        split: option.splits)

lemma fold_assign_key_other: "a \<noteq> t \<Longrightarrow> objs (fold (assign_key t src) ks s) a = objs s a"
  by (induction ks arbitrary: s) (simp_all add: assign_key_other)

lemma fold_assign_key_fields:
  "next_addr (fold (assign_key t src) ks s) = next_addr s"
  "globalOptions_bcrypt (fold (assign_key t src) ks s) = globalOptions_bcrypt s"
  by (induction ks arbitrary: s) (simp_all add: assign_key_fields)

lemma fold_assign_key_target:
  "src \<noteq> t \<Longrightarrow>
   map_of (objs (fold (assign_key t src) ks s) t) = map_of (objs s t) ++ (map_of (objs s src) |` set ks)"
proof (induction ks arbitrary: s)
  case Nil
  then show ?case by simp
next
  case (Cons k ks)
  have "map_of (objs (fold (assign_key t src) ks (assign_key t src k s)) t) =
        (map_of (objs s t) ++ (map_of (objs s src) |` {k})) ++ (map_of (objs s src) |` set ks)"
    using Cons by (simp add: assign_key_target assign_key_other)
  also have "\<dots> = map_of (objs s t) ++ (map_of (objs s src) |` set (k # ks))"
    by (rule ext) (auto simp: map_add_def restrict_map_def split: option.splits)
  finally show ?case by simp
qed

lemma restrict_map_of_keys: "map_of ob |` (fst ` set ob) = map_of ob"
  by (rule ext) (auto simp: restrict_map_def map_of_eq_None_iff[symmetric] simp del: map_of_eq_None_iff)

lemma assign_other: "a \<noteq> t \<Longrightarrow> objs (assign s t srcs) a = objs s a"
  by (induction s t srcs rule: assign.induct) (simp_all add: fold_assign_key_other)

lemma assign_fields:
  "next_addr (assign s t srcs) = next_addr s"
  "globalOptions_bcrypt (assign s t srcs) = globalOptions_bcrypt s"
  by (induction s t srcs rule: assign.induct) (simp_all add: fold_assign_key_fields)

lemma assign_target:
  "Some t \<notin> set srcs \<Longrightarrow>
   map_of (objs (assign s t srcs) t) = foldl (++) (map_of (objs s t)) (map (props s) srcs)"
proof (induction s t srcs rule: assign.induct)
  case (1 s target)
  then show ?case by simp
next
  case (2 s target sources)
  then show ?case by (simp add: props_def)
next
  case (3 s target source sources)
  let ?s' = "fold (assign_key target source) (map fst (objs s source)) s"
  from 3 have ne: "source \<noteq> target" and rest: "Some target \<notin> set sources" by auto
  have same: "map (props ?s') sources = map (props s) sources"
  proof (rule map_cong[OF refl])
    fix x assume "x \<in> set sources"
    with rest have "x \<noteq> Some target" by auto
    then show "props ?s' x = props s x"
      by (cases x) (simp_all add: props_def fold_assign_key_other)
  qed
  have tgt: "map_of (objs ?s' target) = map_of (objs s target) ++ props s (Some source)"
    using ne by (simp add: fold_assign_key_target restrict_map_of_keys props_def)
  have "map_of (objs (assign ?s' target sources) target) =
        foldl (++) (map_of (objs ?s' target)) (map (props ?s') sources)"
    using 3 rest by simp
  then show ?case by (simp add: same tgt)
qed

lemma hash_bcrypt_unfold:
  assumes "default_algo algo = ''bcrypt''"
  shows "hash bk s pw algo options =
     (let s2 = assign (snd (new_object s)) (next_addr s) [options, Some (globalOptions_bcrypt s)]
      in (Inr (bcrypt_hash bk pw (get_prop s2 (next_addr s) ''cost'')), s2))"
  using assms by (simp add: hash_def new_object_def alloc_def Let_def)

lemma hash_effective:
  assumes algo: "default_algo algo = ''bcrypt''"
    and opt: "options \<noteq> Some (next_addr s)"
    and glob: "globalOptions_bcrypt s \<noteq> next_addr s"
  shows "map_of (objs (snd (hash bk s pw algo options)) (next_addr s)) =
         props s options ++ props s (Some (globalOptions_bcrypt s))"
proof -
  let ?t = "next_addr s"
  let ?s1 = "snd (new_object s)"
  have t: "Some ?t \<notin> set [options, Some (globalOptions_bcrypt s)]"
    using opt glob by auto
  have p: "props ?s1 options = props s options" "props ?s1 (Some (globalOptions_bcrypt s)) = props s (Some (globalOptions_bcrypt s))"
    using opt glob by (cases options; simp add: props_def new_object_def alloc_def)+
  have "map_of (objs ?s1 ?t) = Map.empty"
    by (simp add: new_object_def alloc_def)
  then show ?thesis
    using assign_target[OF t, of ?s1] p
    by (simp add: hash_bcrypt_unfold[OF algo] Let_def)
qed

lemma hash_default_cost:
  assumes algo: "default_algo algo = ''bcrypt''"
    and opt: "options \<noteq> Some (next_addr s)"
    and glob: "globalOptions_bcrypt s \<noteq> next_addr s"
    and g: "get_prop s (globalOptions_bcrypt s) ''cost'' = Some g"
  shows "fst (hash bk s pw algo options) = Inr (bcrypt_hash bk pw (Some g))"
proof -
  have "get_prop (snd (hash bk s pw algo options)) (next_addr s) ''cost'' = Some g"
    using hash_effective[OF algo opt glob, of bk pw] g by (simp add: get_prop_def props_def)
  then show ?thesis
    by (simp add: hash_bcrypt_unfold[OF algo] Let_def)
qed

lemma hash_global_ref:
  "globalOptions_bcrypt (snd (hash bk s pw algo options)) = globalOptions_bcrypt s"
  by (simp add: hash_def new_object_def alloc_def Let_def assign_fields)

subsection \<open>What \<open>getInfo\<close> returns\<close>

lemma getInfo_no_match: "exec_ALGO_RE h = None \<Longrightarrow> getInfo bk h = Inl (InvalidHashFormat h)"
  by (simp add: getInfo_def getAlgoId_def)

lemma getInfo_unknown:
  "exec_ALGO_RE h = Some t \<Longrightarrow> IDENTS_TO_ALGOS t \<noteq> Some ''bcrypt'' \<Longrightarrow>
   getInfo bk h = Inr \<lparr>info_algo = ''unknown'', info_id = ''unknown'', info_options = []\<rparr>"
  by (simp add: getInfo_def getAlgoId_def)

lemma getInfo_bcrypt:
  "exec_ALGO_RE h = Some t \<Longrightarrow> IDENTS_TO_ALGOS t = Some ''bcrypt'' \<Longrightarrow>
   getInfo bk h =
     (case bcrypt_getRounds bk h of
        Inl e \<Rightarrow> Inl e
      | Inr c \<Rightarrow> Inr \<lparr>info_algo = ''bcrypt'', info_id = t, info_options = [(''cost'', c)]\<rparr>)"
  by (simp add: getInfo_def getAlgoId_def)

lemma getInfo_bcrypt_shape:
  assumes "getInfo bk h = Inr i" and "info_algo i = ''bcrypt''"
  shows "\<exists>c. i = \<lparr>info_algo = ''bcrypt'', info_id = info_id i, info_options = [(''cost'', c)]\<rparr> \<and>
             bcrypt_getRounds bk h = Inr c \<and> exec_ALGO_RE h = Some (info_id i) \<and>
             IDENTS_TO_ALGOS (info_id i) = Some ''bcrypt''"
  using assms
  by (auto simp: getInfo_def getAlgoId_def split: option.splits sum.splits if_splits)

lemma getRounds_Inl: "getRounds h = Inl e \<Longrightarrow> e = InvalidHashFormat h"
  by (auto simp: getRounds_def split: option.splits)

lemma getRounds_fails_iff:
  assumes m: "matches_grammar h tag"
  shows "(getRounds h = Inl (InvalidHashFormat h)) = (\<forall>ds. \<not> has_cost_field h tag ds)"
proof -
  have uniq: "tag' = tag" if "matches_grammar h tag'" for tag'
    using that m by (rule matches_grammar_unique)
  have "(exec_ROUNDS_RE h = None) = (\<forall>ds. \<not> has_cost_field h tag ds)"
  proof
    assume n: "exec_ROUNDS_RE h = None"
    show "\<forall>ds. \<not> has_cost_field h tag ds"
    proof (intro allI notI)
      fix ds assume "has_cost_field h tag ds"
      with m have "exec_ROUNDS_RE h = Some ds"
        unfolding exec_ROUNDS_RE_Some_iff by blast
      with n show False by simp
    qed
  next
    assume a: "\<forall>ds. \<not> has_cost_field h tag ds"
    show "exec_ROUNDS_RE h = None"
    proof (cases "exec_ROUNDS_RE h")
      case None
      then show ?thesis .
    next
      case (Some ds)
      then obtain t' where "matches_grammar h t'" "has_cost_field h t' ds"
        unfolding exec_ROUNDS_RE_Some_iff by blast
      with uniq a show ?thesis by blast
    qed
  qed
  moreover have "(getRounds h = Inl (InvalidHashFormat h)) = (exec_ROUNDS_RE h = None)"
    by (simp add: getRounds_def split: option.splits)
  ultimately show ?thesis by simp
qed

lemma getInfo_fails_iff:
  "(\<exists>e. getInfo bk h = Inl e) =
     ((\<forall>tag. \<not> matches_grammar h tag) \<or>
      (\<exists>tag. matches_grammar h tag \<and> IDENTS_TO_ALGOS tag = Some ''bcrypt'' \<and>
             (\<exists>e. bcrypt_getRounds bk h = Inl e)))"
proof (cases "exec_ALGO_RE h")
  case None
  then have "\<forall>tag. \<not> matches_grammar h tag" by (simp add: no_grammar_iff)
  with None show ?thesis
    by (simp add: getInfo_no_match)
next
  case (Some tag)
  then have m: "matches_grammar h tag" by (simp add: exec_ALGO_RE_Some_iff)
  have uniq: "tag' = tag" if "matches_grammar h tag'" for tag'
    using that m by (rule matches_grammar_unique)
  show ?thesis
  proof (cases "IDENTS_TO_ALGOS tag = Some ''bcrypt''")
    case True
    have l: "(\<exists>e. getInfo bk h = Inl e) = (\<exists>e. bcrypt_getRounds bk h = Inl e)"
      by (simp add: getInfo_bcrypt[OF Some True] split: sum.splits)
    have r: "((\<forall>tag. \<not> matches_grammar h tag) \<or>
      (\<exists>tag. matches_grammar h tag \<and> IDENTS_TO_ALGOS tag = Some ''bcrypt'' \<and>
             (\<exists>e. bcrypt_getRounds bk h = Inl e))) = (\<exists>e. bcrypt_getRounds bk h = Inl e)"
      using m True by auto
    show ?thesis unfolding l r ..
  next
    case False
    have l: "\<not> (\<exists>e. getInfo bk h = Inl e)"
      by (simp add: getInfo_unknown[OF Some False])
    have r: "\<not> ((\<forall>tag. \<not> matches_grammar h tag) \<or>
      (\<exists>tag. matches_grammar h tag \<and> IDENTS_TO_ALGOS tag = Some ''bcrypt'' \<and>
             (\<exists>e. bcrypt_getRounds bk h = Inl e)))"
    proof
      assume "(\<forall>tag. \<not> matches_grammar h tag) \<or>
      (\<exists>tag. matches_grammar h tag \<and> IDENTS_TO_ALGOS tag = Some ''bcrypt'' \<and>
             (\<exists>e. bcrypt_getRounds bk h = Inl e))"
      then obtain tag' where "matches_grammar h tag'" "IDENTS_TO_ALGOS tag' = Some ''bcrypt''"
        using m by auto
      then show False
        using uniq[of tag'] False by simp
    qed
    from l r show ?thesis by simp
  qed
qed

lemma getInfo_fallback_fails_iff:
  assumes gr: "bcrypt_getRounds bk = getRounds"
  shows "(getInfo bk h = Inl (InvalidHashFormat h)) =
        ((\<forall>tag. \<not> matches_grammar h tag) \<or>
         (\<exists>tag. matches_grammar h tag \<and> IDENTS_TO_ALGOS tag = Some ''bcrypt'' \<and>
                (\<forall>ds. \<not> has_cost_field h tag ds)))"
proof (cases "exec_ALGO_RE h")
  case None
  then have "\<forall>tag. \<not> matches_grammar h tag" by (simp add: no_grammar_iff)
  with None show ?thesis
    by (simp add: getInfo_no_match)
next
  case (Some tag)
  then have m: "matches_grammar h tag" by (simp add: exec_ALGO_RE_Some_iff)
  have uniq: "tag' = tag" if "matches_grammar h tag'" for tag'
    using that m by (rule matches_grammar_unique)
  show ?thesis
  proof (cases "IDENTS_TO_ALGOS tag = Some ''bcrypt''")
    case True
    have "(getInfo bk h = Inl (InvalidHashFormat h)) = (getRounds h = Inl (InvalidHashFormat h))"
      using gr by (simp add: getInfo_bcrypt[OF Some True] split: sum.splits)
    then have l: "(getInfo bk h = Inl (InvalidHashFormat h)) = (\<forall>ds. \<not> has_cost_field h tag ds)"
      by (simp add: getRounds_fails_iff[OF m])
    have r: "((\<forall>tag. \<not> matches_grammar h tag) \<or>
         (\<exists>tag. matches_grammar h tag \<and> IDENTS_TO_ALGOS tag = Some ''bcrypt'' \<and>
                (\<forall>ds. \<not> has_cost_field h tag ds))) = (\<forall>ds. \<not> has_cost_field h tag ds)"
    proof
      assume "(\<forall>tag. \<not> matches_grammar h tag) \<or>
         (\<exists>tag. matches_grammar h tag \<and> IDENTS_TO_ALGOS tag = Some ''bcrypt'' \<and>
                (\<forall>ds. \<not> has_cost_field h tag ds))"
      then obtain tag' where "matches_grammar h tag'" "\<forall>ds. \<not> has_cost_field h tag' ds"
        using m by auto
      then show "\<forall>ds. \<not> has_cost_field h tag ds"
        using uniq[of tag'] by simp
    next
      assume "\<forall>ds. \<not> has_cost_field h tag ds"
      with m True show "(\<forall>tag. \<not> matches_grammar h tag) \<or>
         (\<exists>tag. matches_grammar h tag \<and> IDENTS_TO_ALGOS tag = Some ''bcrypt'' \<and>
                (\<forall>ds. \<not> has_cost_field h tag ds))"
        by auto
    qed
    show ?thesis unfolding l r ..
  next
    case False
    have l: "getInfo bk h \<noteq> Inl (InvalidHashFormat h)"
      by (simp add: getInfo_unknown[OF Some False])
    have r: "\<not> ((\<forall>tag. \<not> matches_grammar h tag) \<or>
         (\<exists>tag. matches_grammar h tag \<and> IDENTS_TO_ALGOS tag = Some ''bcrypt'' \<and>
                (\<forall>ds. \<not> has_cost_field h tag ds)))"
    proof
      assume "(\<forall>tag. \<not> matches_grammar h tag) \<or>
         (\<exists>tag. matches_grammar h tag \<and> IDENTS_TO_ALGOS tag = Some ''bcrypt'' \<and>
                (\<forall>ds. \<not> has_cost_field h tag ds))"
      then obtain tag' where "matches_grammar h tag'" "IDENTS_TO_ALGOS tag' = Some ''bcrypt''"
        using m by auto
      then show False
        using uniq[of tag'] False by simp
    qed
    from l r show ?thesis by simp
  qed
qed

lemma getInfo_fallback_error:
  "bcrypt_getRounds bk = getRounds \<Longrightarrow> getInfo bk h = Inl e \<Longrightarrow> e = InvalidHashFormat h"
  by (auto simp: getInfo_def getAlgoId_def dest: getRounds_Inl split: option.splits sum.splits if_splits)

lemma example_decode:
  "getInfo reference_module example_hash =
     Inr \<lparr>info_algo = ''bcrypt'', info_id = ''2y'', info_options = [(''cost'', 7)]\<rparr>"
  by code_simp

section \<open>The claims\<close>

text \<open>C1, as amended. For a hash that decodes as bcrypt with tag \<open>tag\<close> and cost \<open>c\<close>
  (every bcrypt decode has this shape, \<open>getInfo_bcrypt_shape\<close>), and a global bcrypt
  default cost \<open>g\<close>: \<open>needsRehash(h, 'bcrypt', options)\<close> is true exactly when the tag
  is not \<open>2y\<close> or the cost is strictly less than the required cost, which is
  \<open>options.cost\<close> when \<open>options\<close> is given and its cost is present and not zero, and
  the global default cost otherwise. It is not the maximum of the two.\<close>

theorem needsRehash_bcrypt_threshold:
  assumes "getInfo bk h = Inr \<lparr>info_algo = ''bcrypt'', info_id = tag, info_options = [(''cost'', c)]\<rparr>"
    and "get_prop s (globalOptions_bcrypt s) ''cost'' = Some g"
  shows "needsRehash bk s h (Some ''bcrypt'') options =
           Inr (tag \<noteq> ''2y'' \<or>
                c < (case props s options ''cost'' of
                       None \<Rightarrow> g
                     | Some n \<Rightarrow> if n = 0 then g else n))"
  using assms
  by (cases options)
     (auto simp: needsRehash_def default_algo_def js_or_def js_lt_def truthy_def props_def get_prop_def
        split: option.splits)

theorem needsRehash_bcrypt_threshold_witness:
  "getInfo reference_module example_hash =
     Inr \<lparr>info_algo = ''bcrypt'', info_id = ''2y'', info_options = [(''cost'', 7)]\<rparr> \<and>
   get_prop (example_state [(''cost'', 12)]) (globalOptions_bcrypt (example_state [(''cost'', 12)])) ''cost'' = Some 10 \<and>
   needsRehash reference_module (example_state [(''cost'', 12)]) example_hash (Some ''bcrypt'') (Some 1) = Inr True"
proof -
  have g: "get_prop (example_state [(''cost'', 12)]) (globalOptions_bcrypt (example_state [(''cost'', 12)])) ''cost'' = Some 10"
    by code_simp
  have p: "props (example_state [(''cost'', 12)]) (Some 1) ''cost'' = Some 12"
    by code_simp
  show ?thesis
    using needsRehash_bcrypt_threshold[OF example_decode g, of "Some 1"] p example_decode g by simp
qed

text \<open>C1 as stated fails: with decoded tag \<open>2y\<close> and cost 7, \<open>options.cost = 5\<close> and a
  global default of 10, the code answers false where the maximum rule answers true.\<close>

theorem needsRehash_max_counterexample:
  "getInfo reference_module example_hash =
     Inr \<lparr>info_algo = ''bcrypt'', info_id = ''2y'', info_options = [(''cost'', 7)]\<rparr> \<and>
   get_prop (example_state [(''cost'', 5)]) 1 ''cost'' = Some 5 \<and>
   get_prop (example_state [(''cost'', 5)]) (globalOptions_bcrypt (example_state [(''cost'', 5)])) ''cost'' = Some 10 \<and>
   needsRehash reference_module (example_state [(''cost'', 5)]) example_hash (Some ''bcrypt'') (Some 1) = Inr False \<and>
   spec_bcrypt_stale ''2y'' 7 5 10"
  by code_simp

text \<open>C2. \<open>hash(password, 'bcrypt', options)\<close> with a caller-supplied options object:
  the effective parameters are the caller's properties overwritten by the global bcrypt
  defaults, so every key the defaults have carries the default's value whatever the
  caller supplied, and the primitive is called with the default cost.\<close>

theorem hash_policy_defaults_win:
  assumes "a < next_addr s" and "globalOptions_bcrypt s < next_addr s"
  shows "map_of (objs (snd (hash bk s pw (Some ''bcrypt'') (Some a))) (next_addr s)) =
           map_of (objs s a) ++ map_of (objs s (globalOptions_bcrypt s)) \<and>
         (\<forall>key v. get_prop s (globalOptions_bcrypt s) key = Some v \<longrightarrow>
            get_prop (snd (hash bk s pw (Some ''bcrypt'') (Some a))) (next_addr s) key = Some v) \<and>
         (\<forall>g. get_prop s (globalOptions_bcrypt s) ''cost'' = Some g \<longrightarrow>
            fst (hash bk s pw (Some ''bcrypt'') (Some a)) = Inr (bcrypt_hash bk pw (Some g)))"
proof -
  have algo: "default_algo (Some ''bcrypt'') = ''bcrypt''"
    by (simp add: default_algo_def)
  have eff: "map_of (objs (snd (hash bk s pw (Some ''bcrypt'') (Some a))) (next_addr s)) =
             map_of (objs s a) ++ map_of (objs s (globalOptions_bcrypt s))"
    using hash_effective[OF algo, of "Some a" s bk pw] assms by (simp add: props_def)
  have res: "fst (hash bk s pw (Some ''bcrypt'') (Some a)) =
             Inr (bcrypt_hash bk pw (get_prop (snd (hash bk s pw (Some ''bcrypt'') (Some a))) (next_addr s) ''cost''))"
    by (simp add: hash_bcrypt_unfold[OF algo] Let_def)
  show ?thesis
    using eff res by (simp add: get_prop_def)
qed

theorem hash_policy_defaults_win_witness:
  "(1::nat) < next_addr (example_state [(''cost'', 8)]) \<and>
   globalOptions_bcrypt (example_state [(''cost'', 8)]) < next_addr (example_state [(''cost'', 8)]) \<and>
   get_prop (example_state [(''cost'', 8)]) 1 ''cost'' = Some 8 \<and>
   get_prop (example_state [(''cost'', 8)]) (globalOptions_bcrypt (example_state [(''cost'', 8)])) ''cost'' = Some 10 \<and>
   get_prop (snd (hash reference_module (example_state [(''cost'', 8)]) ''secret'' (Some ''bcrypt'') (Some 1))) 2 ''cost'' = Some 10 \<and>
   fst (hash reference_module (example_state [(''cost'', 8)]) ''secret'' (Some ''bcrypt'') (Some 1)) =
     Inr (bcrypt_hash reference_module ''secret'' (Some 10))"
proof -
  let ?s = "example_state [(''cost'', 8)]"
  have a: "(1::nat) < next_addr ?s" by code_simp
  have g: "globalOptions_bcrypt ?s < next_addr ?s" by code_simp
  have n: "next_addr ?s = 2" by code_simp
  have c: "get_prop ?s (globalOptions_bcrypt ?s) ''cost'' = Some 10" by code_simp
  have o: "get_prop ?s 1 ''cost'' = Some 8" by code_simp
  show ?thesis
    using hash_policy_defaults_win[OF a g, of reference_module "''secret''"] a g n c o by simp
qed

text \<open>C3. Under the module's initial policy (\<open>globalOptions.bcrypt.cost = 10\<close>),
  \<open>hash(password, 'bcrypt', {cost: 12})\<close> hands the primitive the cost 10, for every
  module and password; with a primitive that writes the cost it is given into the hash
  string, \<open>getInfo\<close> of the result reports the cost 10, not 12.\<close>

theorem hash_explicit_cost_not_round_tripped:
  "get_prop (example_state [(''cost'', 12)]) 1 ''cost'' = Some 12 \<and>
   fst (hash bk (example_state [(''cost'', 12)]) pw (Some ''bcrypt'') (Some 1)) =
     Inr (bcrypt_hash bk pw (Some 10)) \<and>
   fst (hash reference_module (example_state [(''cost'', 12)]) pw (Some ''bcrypt'') (Some 1)) =
     Inr (Resolved (''$2y$10$'' @ reference_payload pw)) \<and>
   getInfo reference_module (''$2y$10$'' @ reference_payload pw) =
     Inr \<lparr>info_algo = ''bcrypt'', info_id = ''2y'', info_options = [(''cost'', 10)]\<rparr>"
proof -
  let ?s = "example_state [(''cost'', 12)]"
  have o: "get_prop ?s 1 ''cost'' = Some 12" by code_simp
  have a: "(1::nat) < next_addr ?s" by code_simp
  have g: "globalOptions_bcrypt ?s < next_addr ?s" by code_simp
  have c: "get_prop ?s (globalOptions_bcrypt ?s) ''cost'' = Some 10" by code_simp
  have algo: "default_algo (Some ''bcrypt'') = ''bcrypt''"
    by (simp add: default_algo_def)
  have eff: "map_of (objs (snd (hash bk ?s pw (Some ''bcrypt'') (Some 1))) (next_addr ?s)) =
             props ?s (Some 1) ++ props ?s (Some (globalOptions_bcrypt ?s))" for bk
    using hash_effective[OF algo, of "Some 1" ?s bk pw] a g by simp
  have cost: "get_prop (snd (hash bk ?s pw (Some ''bcrypt'') (Some 1))) (next_addr ?s) ''cost'' = Some 10" for bk
    using eff[of bk] c by (simp add: get_prop_def props_def)
  have res: "fst (hash bk ?s pw (Some ''bcrypt'') (Some 1)) = Inr (bcrypt_hash bk pw (Some 10))" for bk
    using cost[of bk] by (simp add: hash_bcrypt_unfold[OF algo] Let_def)
  have prim: "bcrypt_hash reference_module pw (Some 10) = Resolved (''$2y$10$'' @ reference_payload pw)"
    by (simp add: reference_module_def fallback_module_def promisify_def reference_hash_def two_digits_def)
  have dec: "getInfo reference_module (''$2y$10$'' @ reference_payload pw) =
     Inr \<lparr>info_algo = ''bcrypt'', info_id = ''2y'', info_options = [(''cost'', 10)]\<rparr>"
    by (simp add: getInfo_def getAlgoId_def exec_ALGO_RE_def token_def IDENTS_TO_ALGOS_bcrypt
        reference_module_def fallback_module_def getRounds_def exec_ROUNDS_RE_def digits_field_def
        is_digit_def to_number_def)
  show ?thesis
    using o res[of bk] res[of reference_module] prim dec by simp
qed

text \<open>C4, as amended. A string that matches the grammar with a tag that is not a
  registered bcrypt tag never makes \<open>needsRehash\<close> throw, and the answer is true for
  every requested algorithm other than the name \<open>unknown\<close>, the omitted and the empty
  one included. A failure of \<open>getInfo\<close> is thrown on unchanged; a string that does not
  match the grammar fails with \<open>InvalidHashFormat\<close>, and with the source's
  \<open>getRounds\<close> every failure is that error.\<close>

theorem needsRehash_unknown_tag_and_errors:
  "(matches_grammar h tag \<and> IDENTS_TO_ALGOS tag \<noteq> Some ''bcrypt'' \<longrightarrow>
      (\<exists>b. needsRehash bk s h algo options = Inr b) \<and>
      (default_algo algo \<noteq> ''unknown'' \<longrightarrow> needsRehash bk s h algo options = Inr True)) \<and>
   (getInfo bk h = Inl e \<longrightarrow> needsRehash bk s h algo options = Inl e) \<and>
   ((\<forall>t. \<not> matches_grammar h t) \<longrightarrow> needsRehash bk s h algo options = Inl (InvalidHashFormat h)) \<and>
   (bcrypt_getRounds bk = getRounds \<and> getInfo bk h = Inl e \<longrightarrow> e = InvalidHashFormat h)"
proof -
  have 1: "(\<exists>b. needsRehash bk s h algo options = Inr b) \<and>
      (default_algo algo \<noteq> ''unknown'' \<longrightarrow> needsRehash bk s h algo options = Inr True)"
    if "matches_grammar h tag" "IDENTS_TO_ALGOS tag \<noteq> Some ''bcrypt''"
  proof -
    from that have "getInfo bk h = Inr \<lparr>info_algo = ''unknown'', info_id = ''unknown'', info_options = []\<rparr>"
      by (simp add: getInfo_unknown exec_ALGO_RE_Some_iff)
    then show ?thesis by (auto simp: needsRehash_def)
  qed
  have 2: "needsRehash bk s h algo options = Inl e" if "getInfo bk h = Inl e"
    using that by (simp add: needsRehash_def)
  have 3: "needsRehash bk s h algo options = Inl (InvalidHashFormat h)" if "\<forall>t. \<not> matches_grammar h t"
  proof -
    from that have "exec_ALGO_RE h = None"
      by (cases "exec_ALGO_RE h") (simp_all add: exec_ALGO_RE_Some_iff)
    then show ?thesis by (simp add: needsRehash_def getInfo_no_match)
  qed
  have 4: "e = InvalidHashFormat h" if "bcrypt_getRounds bk = getRounds" "getInfo bk h = Inl e"
    using that
    by (auto simp: getInfo_def getAlgoId_def dest: getRounds_Inl split: option.splits sum.splits if_splits)
  from 1 2 3 4 show ?thesis by blast
qed

theorem needsRehash_unknown_tag_and_errors_witness:
  "matches_grammar ''$unknown$abc'' ''unknown'' \<and> IDENTS_TO_ALGOS ''unknown'' \<noteq> Some ''bcrypt'' \<and>
   default_algo None \<noteq> ''unknown'' \<and>
   needsRehash reference_module initial_state ''$unknown$abc'' None None = Inr True \<and>
   (\<forall>t. \<not> matches_grammar ''not-a-hash'' t) \<and>
   getInfo reference_module ''not-a-hash'' = Inl (InvalidHashFormat ''not-a-hash'') \<and>
   bcrypt_getRounds reference_module = getRounds \<and>
   needsRehash reference_module initial_state ''not-a-hash'' None None = Inl (InvalidHashFormat ''not-a-hash'')"
proof -
  have m: "matches_grammar ''$unknown$abc'' ''unknown''"
    unfolding exec_ALGO_RE_Some_iff[symmetric] by code_simp
  have u: "IDENTS_TO_ALGOS ''unknown'' \<noteq> Some ''bcrypt''"
    by (simp add: IDENTS_TO_ALGOS_bcrypt)
  have d: "default_algo None \<noteq> ''unknown''"
    by (simp add: default_algo_def DEFAULT_ALGO_def)
  have n: "\<forall>t. \<not> matches_grammar ''not-a-hash'' t"
    unfolding no_grammar_iff by code_simp
  have f: "getInfo reference_module ''not-a-hash'' = Inl (InvalidHashFormat ''not-a-hash'')"
    by code_simp
  have r: "bcrypt_getRounds reference_module = getRounds"
    by (simp add: reference_module_def fallback_module_def)
  show ?thesis
    using needsRehash_unknown_tag_and_errors[of "''$unknown$abc''" "''unknown''" reference_module initial_state None None "InvalidHashFormat ''not-a-hash''"]
      needsRehash_unknown_tag_and_errors[of "''not-a-hash''" "''x''" reference_module initial_state None None "InvalidHashFormat ''not-a-hash''"]
      m u d n f r
    by simp
qed

text \<open>C4 as stated fails when the caller asks for the algorithm named \<open>unknown\<close>: the
  decoded name and the requested name agree, and the answer is false.\<close>

theorem needsRehash_unknown_counterexample:
  "matches_grammar ''$md5$abc'' ''md5'' \<and> IDENTS_TO_ALGOS ''md5'' \<noteq> Some ''bcrypt'' \<and>
   needsRehash reference_module initial_state ''$md5$abc'' (Some ''unknown'') None = Inr False"
proof -
  have m: "matches_grammar ''$md5$abc'' ''md5''"
    unfolding exec_ALGO_RE_Some_iff[symmetric] by code_simp
  have u: "IDENTS_TO_ALGOS ''md5'' \<noteq> Some ''bcrypt''"
    by (simp add: IDENTS_TO_ALGOS_bcrypt)
  have r: "needsRehash reference_module initial_state ''$md5$abc'' (Some ''unknown'') None = Inr False"
    by code_simp
  from m u r show ?thesis by simp
qed

text \<open>C5, as amended. For every module, \<open>getInfo\<close> fails exactly when the string does
  not match the grammar, with \<open>InvalidHashFormat\<close>, or its tag is a registered bcrypt
  tag and the module's \<open>getRounds\<close> throws on the string, with the error \<open>getRounds\<close>
  threw. When the module's \<open>getRounds\<close> is the one written in the source, the second
  case is: no cost field follows the tag, and every failure is \<open>InvalidHashFormat\<close>.
  Whatever the module, a string that matches the grammar with an unregistered tag is
  answered with the record of the algorithm \<open>unknown\<close> and empty options.\<close>

theorem getInfo_failure_cases:
  "((\<exists>e. getInfo bk h = Inl e) =
      ((\<forall>tag. \<not> matches_grammar h tag) \<or>
       (\<exists>tag. matches_grammar h tag \<and> IDENTS_TO_ALGOS tag = Some ''bcrypt'' \<and>
              (\<exists>e. bcrypt_getRounds bk h = Inl e)))) \<and>
   ((\<forall>tag. \<not> matches_grammar h tag) \<longrightarrow> getInfo bk h = Inl (InvalidHashFormat h)) \<and>
   (matches_grammar h t \<and> IDENTS_TO_ALGOS t = Some ''bcrypt'' \<longrightarrow>
      getInfo bk h =
        (case bcrypt_getRounds bk h of
           Inl e \<Rightarrow> Inl e
         | Inr c \<Rightarrow> Inr \<lparr>info_algo = ''bcrypt'', info_id = t, info_options = [(''cost'', c)]\<rparr>)) \<and>
   (bcrypt_getRounds bk = getRounds \<longrightarrow>
      (getInfo bk h = Inl (InvalidHashFormat h)) =
        ((\<forall>tag. \<not> matches_grammar h tag) \<or>
         (\<exists>tag. matches_grammar h tag \<and> IDENTS_TO_ALGOS tag = Some ''bcrypt'' \<and>
                (\<forall>ds. \<not> has_cost_field h tag ds))) \<and>
      (\<forall>e. getInfo bk h = Inl e \<longrightarrow> e = InvalidHashFormat h)) \<and>
   (matches_grammar h t \<and> IDENTS_TO_ALGOS t \<noteq> Some ''bcrypt'' \<longrightarrow>
      getInfo bk h = Inr \<lparr>info_algo = ''unknown'', info_id = ''unknown'', info_options = []\<rparr>)"
proof (intro conjI impI allI)
  show "(\<exists>e. getInfo bk h = Inl e) =
      ((\<forall>tag. \<not> matches_grammar h tag) \<or>
       (\<exists>tag. matches_grammar h tag \<and> IDENTS_TO_ALGOS tag = Some ''bcrypt'' \<and>
              (\<exists>e. bcrypt_getRounds bk h = Inl e)))"
    by (rule getInfo_fails_iff)
next
  assume "\<forall>tag. \<not> matches_grammar h tag"
  then have "exec_ALGO_RE h = None" by (simp add: no_grammar_iff)
  then show "getInfo bk h = Inl (InvalidHashFormat h)" by (rule getInfo_no_match)
next
  assume "matches_grammar h t \<and> IDENTS_TO_ALGOS t = Some ''bcrypt''"
  then have "exec_ALGO_RE h = Some t" "IDENTS_TO_ALGOS t = Some ''bcrypt''"
    by (simp_all add: exec_ALGO_RE_Some_iff)
  then show "getInfo bk h =
        (case bcrypt_getRounds bk h of
           Inl e \<Rightarrow> Inl e
         | Inr c \<Rightarrow> Inr \<lparr>info_algo = ''bcrypt'', info_id = t, info_options = [(''cost'', c)]\<rparr>)"
    by (rule getInfo_bcrypt)
next
  assume "bcrypt_getRounds bk = getRounds"
  then show "(getInfo bk h = Inl (InvalidHashFormat h)) =
        ((\<forall>tag. \<not> matches_grammar h tag) \<or>
         (\<exists>tag. matches_grammar h tag \<and> IDENTS_TO_ALGOS tag = Some ''bcrypt'' \<and>
                (\<forall>ds. \<not> has_cost_field h tag ds)))"
    by (rule getInfo_fallback_fails_iff)
next
  fix e assume "bcrypt_getRounds bk = getRounds" "getInfo bk h = Inl e"
  then show "e = InvalidHashFormat h" by (rule getInfo_fallback_error)
next
  assume "matches_grammar h t \<and> IDENTS_TO_ALGOS t \<noteq> Some ''bcrypt''"
  then have "exec_ALGO_RE h = Some t" "IDENTS_TO_ALGOS t \<noteq> Some ''bcrypt''"
    by (simp_all add: exec_ALGO_RE_Some_iff)
  then show "getInfo bk h = Inr \<lparr>info_algo = ''unknown'', info_id = ''unknown'', info_options = []\<rparr>"
    by (rule getInfo_unknown)
qed

theorem getInfo_failure_cases_witness:
  "bcrypt_getRounds reference_module = getRounds \<and>
   (\<forall>tag. \<not> matches_grammar ''not-a-hash'' tag) \<and>
   getInfo reference_module ''not-a-hash'' = Inl (InvalidHashFormat ''not-a-hash'') \<and>
   matches_grammar ''$unknown$abc'' ''unknown'' \<and> IDENTS_TO_ALGOS ''unknown'' \<noteq> Some ''bcrypt'' \<and>
   getInfo reference_module ''$unknown$abc'' =
     Inr \<lparr>info_algo = ''unknown'', info_id = ''unknown'', info_options = []\<rparr> \<and>
   matches_grammar ''$2y$10$'' ''2y'' \<and> IDENTS_TO_ALGOS ''2y'' = Some ''bcrypt'' \<and>
   bcrypt_getRounds strict_module ''$2y$10$'' = Inl (Error ''invalid hash provided'') \<and>
   getInfo strict_module ''$2y$10$'' = Inl (Error ''invalid hash provided'') \<and>
   getInfo reference_module ''$2y$10$'' =
     Inr \<lparr>info_algo = ''bcrypt'', info_id = ''2y'', info_options = [(''cost'', 10)]\<rparr>"
proof -
  have r: "bcrypt_getRounds reference_module = getRounds"
    by (simp add: reference_module_def fallback_module_def)
  have n: "\<forall>tag. \<not> matches_grammar ''not-a-hash'' tag"
    unfolding no_grammar_iff by code_simp
  have m: "matches_grammar ''$unknown$abc'' ''unknown''"
    unfolding exec_ALGO_RE_Some_iff[symmetric] by code_simp
  have u: "IDENTS_TO_ALGOS ''unknown'' \<noteq> Some ''bcrypt''"
    by (simp add: IDENTS_TO_ALGOS_bcrypt)
  have m2: "matches_grammar ''$2y$10$'' ''2y''"
    unfolding exec_ALGO_RE_Some_iff[symmetric] by code_simp
  have b: "IDENTS_TO_ALGOS ''2y'' = Some ''bcrypt''"
    by (simp add: IDENTS_TO_ALGOS_bcrypt)
  have s: "bcrypt_getRounds strict_module ''$2y$10$'' = Inl (Error ''invalid hash provided'')"
    by code_simp
  have g: "bcrypt_getRounds reference_module ''$2y$10$'' = Inr 10"
    by code_simp
  have f: "getInfo reference_module ''not-a-hash'' = Inl (InvalidHashFormat ''not-a-hash'')"
    using getInfo_failure_cases[of reference_module "''not-a-hash''" "''x''"] n by blast
  have k: "getInfo reference_module ''$unknown$abc'' =
     Inr \<lparr>info_algo = ''unknown'', info_id = ''unknown'', info_options = []\<rparr>"
    using getInfo_failure_cases[of reference_module "''$unknown$abc''" "''unknown''"] m u by blast
  have "getInfo strict_module ''$2y$10$'' =
        (case bcrypt_getRounds strict_module ''$2y$10$'' of
           Inl e \<Rightarrow> Inl e
         | Inr c \<Rightarrow> Inr \<lparr>info_algo = ''bcrypt'', info_id = ''2y'', info_options = [(''cost'', c)]\<rparr>)"
    using getInfo_failure_cases[of strict_module "''$2y$10$''" "''2y''"] m2 b by blast
  then have fs: "getInfo strict_module ''$2y$10$'' = Inl (Error ''invalid hash provided'')"
    by (simp add: s)
  have "getInfo reference_module ''$2y$10$'' =
        (case bcrypt_getRounds reference_module ''$2y$10$'' of
           Inl e \<Rightarrow> Inl e
         | Inr c \<Rightarrow> Inr \<lparr>info_algo = ''bcrypt'', info_id = ''2y'', info_options = [(''cost'', c)]\<rparr>)"
    using getInfo_failure_cases[of reference_module "''$2y$10$''" "''2y''"] m2 b by blast
  then have fr: "getInfo reference_module ''$2y$10$'' =
     Inr \<lparr>info_algo = ''bcrypt'', info_id = ''2y'', info_options = [(''cost'', 10)]\<rparr>"
    by (simp add: g)
  show ?thesis
    by (intro conjI; fact)
qed

text \<open>C5 as stated fails: \<open>$2a$xyz\<close> matches the grammar, with the registered tag
  \<open>2a\<close>, and \<open>getInfo\<close> fails on it, since no cost field follows the tag.\<close>

theorem getInfo_grammar_counterexample:
  "matches_grammar ''$2a$xyz'' ''2a'' \<and>
   getInfo reference_module ''$2a$xyz'' = Inl (InvalidHashFormat ''$2a$xyz'')"
proof -
  have m: "matches_grammar ''$2a$xyz'' ''2a''"
    unfolding exec_ALGO_RE_Some_iff[symmetric] by code_simp
  have f: "getInfo reference_module ''$2a$xyz'' = Inl (InvalidHashFormat ''$2a$xyz'')"
    by code_simp
  from m f show ?thesis by simp
qed

text \<open>C6, as amended. \<open>hash\<close> with a non-empty algorithm name other than \<open>bcrypt\<close>
  throws \<open>UnsupportedAlgorithm\<close> and leaves the store as it was; \<open>verify\<close> on a hash
  string whose decoded algorithm is \<open>unknown\<close> throws \<open>UnsupportedAlgorithm\<close>.\<close>

theorem unsupported_algorithm:
  "(a \<noteq> [] \<and> a \<noteq> ''bcrypt'' \<longrightarrow> hash bk s pw (Some a) options = (Inl UnsupportedAlgorithm, s)) \<and>
   (getInfo bk h = Inr i \<and> info_algo i = ''unknown'' \<longrightarrow> verify bk pw h = Inl UnsupportedAlgorithm)"
  by (auto simp: hash_def default_algo_def verify_def)

theorem unsupported_algorithm_witness:
  "''md5'' \<noteq> [] \<and> ''md5'' \<noteq> ''bcrypt'' \<and>
   hash reference_module initial_state ''secret'' (Some ''md5'') None = (Inl UnsupportedAlgorithm, initial_state) \<and>
   getInfo reference_module ''$md5$abc'' =
     Inr \<lparr>info_algo = ''unknown'', info_id = ''unknown'', info_options = []\<rparr> \<and>
   verify reference_module ''secret'' ''$md5$abc'' = Inl UnsupportedAlgorithm"
proof -
  have g: "getInfo reference_module ''$md5$abc'' =
     Inr \<lparr>info_algo = ''unknown'', info_id = ''unknown'', info_options = []\<rparr>"
    by code_simp
  show ?thesis
    using unsupported_algorithm[of "''md5''" reference_module initial_state "''secret''" None
        "''$md5$abc''" "\<lparr>info_algo = ''unknown'', info_id = ''unknown'', info_options = []\<rparr>"] g
    by simp
qed

text \<open>C6 as stated fails at the empty string, an algorithm name other than \<open>bcrypt\<close>:
  \<open>hash\<close> takes it for an omitted argument and hashes with bcrypt.\<close>

theorem hash_empty_algorithm_counterexample:
  "'''' \<noteq> ''bcrypt'' \<and>
   fst (hash reference_module initial_state ''secret'' (Some '''') None) =
     Inr (bcrypt_hash reference_module ''secret'' (Some 10)) \<and>
   fst (hash reference_module initial_state ''secret'' (Some '''') None) \<noteq> Inl UnsupportedAlgorithm"
  by code_simp

text \<open>C8. If \<open>needsRehash(h)\<close>, called with no algorithm and no options, is false under
  one policy, then under any policy whose global bcrypt default cost is strictly above
  the cost decoded from \<open>h\<close> it is true.\<close>

theorem needsRehash_monotone_in_default_cost:
  assumes "needsRehash bk s h None None = Inr False"
    and "getInfo bk h = Inr i"
    and "map_of (info_options i) ''cost'' = Some c"
    and "get_prop s' (globalOptions_bcrypt s') ''cost'' = Some g'"
    and "c < g'"
  shows "needsRehash bk s' h None None = Inr True"
  using assms
  by (auto simp: needsRehash_def default_algo_def DEFAULT_ALGO_def js_or_def js_lt_def truthy_def
      split: if_splits)

theorem needsRehash_monotone_in_default_cost_witness:
  "needsRehash reference_module (initial_state\<lparr>objs := (objs initial_state)(0 := [(''cost'', 7)])\<rparr>)
     example_hash None None = Inr False \<and>
   getInfo reference_module example_hash =
     Inr \<lparr>info_algo = ''bcrypt'', info_id = ''2y'', info_options = [(''cost'', 7)]\<rparr> \<and>
   get_prop initial_state (globalOptions_bcrypt initial_state) ''cost'' = Some 10 \<and> (7::int) < 10 \<and>
   needsRehash reference_module initial_state example_hash None None = Inr True"
proof -
  have f: "needsRehash reference_module (initial_state\<lparr>objs := (objs initial_state)(0 := [(''cost'', 7)])\<rparr>)
     example_hash None None = Inr False"
    by code_simp
  have c: "map_of (info_options \<lparr>info_algo = ''bcrypt'', info_id = ''2y'', info_options = [(''cost'', 7)]\<rparr>) ''cost'' = Some (7::int)"
    by simp
  have g: "get_prop initial_state (globalOptions_bcrypt initial_state) ''cost'' = Some 10"
    by code_simp
  have l: "(7::int) < 10" by simp
  have t: "needsRehash reference_module initial_state example_hash None None = Inr True"
    by (rule needsRehash_monotone_in_default_cost[OF f example_decode c g l])
  show ?thesis
    by (intro conjI; fact f example_decode g l t)
qed

text \<open>C9. After any call of \<open>hash\<close>, \<open>verify\<close>, \<open>getInfo\<close> or \<open>needsRehash\<close>, every
  object that was allocated before the call, so the object of global bcrypt defaults and
  the caller's options object, is unchanged, and \<open>globalOptions.bcrypt\<close> refers to the
  same object. The only object written is the one at the address that was free before
  the call, where \<open>hash\<close> builds its effective parameters.\<close>

theorem engine_calls_frame:
  "(a < next_addr s \<longrightarrow> objs (state_after bk s c) a = objs s a) \<and>
   (a \<noteq> next_addr s \<longrightarrow> objs (state_after bk s c) a = objs s a) \<and>
   globalOptions_bcrypt (state_after bk s c) = globalOptions_bcrypt s"
proof -
  have "objs (state_after bk s c) a = objs s a" if "a \<noteq> next_addr s"
    using that
    by (cases c) (simp_all add: state_after_def hash_def new_object_def alloc_def Let_def assign_other)
  moreover have "globalOptions_bcrypt (state_after bk s c) = globalOptions_bcrypt s"
    by (cases c) (simp_all add: state_after_def hash_global_ref)
  ultimately show ?thesis by simp
qed

theorem engine_calls_frame_witness:
  "globalOptions_bcrypt (example_state [(''cost'', 8)]) < next_addr (example_state [(''cost'', 8)]) \<and>
   (1::nat) < next_addr (example_state [(''cost'', 8)]) \<and>
   objs (state_after reference_module (example_state [(''cost'', 8)]) (Hash ''secret'' (Some ''bcrypt'') (Some 1))) 0 = [(''cost'', 10)] \<and>
   objs (state_after reference_module (example_state [(''cost'', 8)]) (Hash ''secret'' (Some ''bcrypt'') (Some 1))) 1 = [(''cost'', 8)] \<and>
   objs (state_after reference_module (example_state [(''cost'', 8)]) (Hash ''secret'' (Some ''bcrypt'') (Some 1))) 2 = [(''cost'', 10)] \<and>
   globalOptions_bcrypt (state_after reference_module (example_state [(''cost'', 8)]) (Hash ''secret'' (Some ''bcrypt'') (Some 1))) = 0"
proof -
  let ?s = "example_state [(''cost'', 8)]"
  let ?c = "Hash ''secret'' (Some ''bcrypt'') (Some 1)"
  have n: "next_addr ?s = 2" by code_simp
  have g: "globalOptions_bcrypt ?s = 0" by code_simp
  have o0: "objs ?s 0 = [(''cost'', 10)]" by code_simp
  have o1: "objs ?s 1 = [(''cost'', 8)]" by code_simp
  have o2: "objs (state_after reference_module ?s ?c) 2 = [(''cost'', 10)]" by code_simp
  show ?thesis
    using engine_calls_frame[of 0 ?s reference_module ?c] engine_calls_frame[of 1 ?s reference_module ?c]
      n g o0 o1 o2
    by simp
qed

text \<open>C10. A caller-supplied \<open>options.cost\<close> of 0 is passed over: \<open>needsRehash\<close> answers
  as it does without options, comparing the decoded cost with the global bcrypt default
  cost. An empty string as the algorithm is passed over too: \<open>hash\<close> and
  \<open>needsRehash\<close> behave as with the algorithm omitted, and as with \<open>bcrypt\<close>. So
  \<open>hash\<close> with the empty string does not throw: it calls the bcrypt primitive, with
  the global default cost when the defaults hold one; and \<open>needsRehash\<close> with the
  empty string applies the bcrypt rule to a bcrypt hash and answers true for a hash of
  unknown algorithm.\<close>

theorem falsy_arguments_are_absent:
  "(get_prop s a ''cost'' = Some 0 \<longrightarrow>
      needsRehash bk s h algo (Some a) = needsRehash bk s h algo None \<and>
      (getInfo bk h = Inr \<lparr>info_algo = ''bcrypt'', info_id = tag, info_options = [(''cost'', c)]\<rparr> \<and>
       default_algo algo = ''bcrypt'' \<longrightarrow>
         needsRehash bk s h algo (Some a) =
           Inr (tag \<noteq> ''2y'' \<or> js_lt (Some c) (get_prop s (globalOptions_bcrypt s) ''cost'')))) \<and>
   hash bk s pw (Some '''') options = hash bk s pw None options \<and>
   hash bk s pw (Some '''') options = hash bk s pw (Some ''bcrypt'') options \<and>
   (\<exists>cost. fst (hash bk s pw (Some '''') options) = Inr (bcrypt_hash bk pw cost)) \<and>
   (options \<noteq> Some (next_addr s) \<and> globalOptions_bcrypt s \<noteq> next_addr s \<and>
    get_prop s (globalOptions_bcrypt s) ''cost'' = Some g \<longrightarrow>
      fst (hash bk s pw (Some '''') options) = Inr (bcrypt_hash bk pw (Some g))) \<and>
   needsRehash bk s h (Some '''') options = needsRehash bk s h None options \<and>
   needsRehash bk s h (Some '''') options = needsRehash bk s h (Some ''bcrypt'') options \<and>
   (getInfo bk h = Inr \<lparr>info_algo = ''bcrypt'', info_id = tag, info_options = [(''cost'', c)]\<rparr> \<longrightarrow>
      needsRehash bk s h (Some '''') options =
        Inr (tag \<noteq> ''2y'' \<or>
             js_lt (Some c) (js_or (props s options ''cost'') (get_prop s (globalOptions_bcrypt s) ''cost'')))) \<and>
   (getInfo bk h = Inr \<lparr>info_algo = ''unknown'', info_id = ''unknown'', info_options = []\<rparr> \<longrightarrow>
      needsRehash bk s h (Some '''') options = Inr True)"
proof -
  have e: "default_algo (Some '''') = ''bcrypt''"
    by (simp add: default_algo_def DEFAULT_ALGO_def)
  have 1: "get_prop s a ''cost'' = Some 0 \<longrightarrow>
      needsRehash bk s h algo (Some a) = needsRehash bk s h algo None \<and>
      (getInfo bk h = Inr \<lparr>info_algo = ''bcrypt'', info_id = tag, info_options = [(''cost'', c)]\<rparr> \<and>
       default_algo algo = ''bcrypt'' \<longrightarrow>
         needsRehash bk s h algo (Some a) =
           Inr (tag \<noteq> ''2y'' \<or> js_lt (Some c) (get_prop s (globalOptions_bcrypt s) ''cost'')))"
    by (auto simp: needsRehash_def js_or_def truthy_def split: sum.splits)
  have 2: "hash bk s pw (Some '''') options = hash bk s pw None options"
    "hash bk s pw (Some '''') options = hash bk s pw (Some ''bcrypt'') options"
    by (simp_all add: hash_def default_algo_def DEFAULT_ALGO_def)
  have 3: "\<exists>cost. fst (hash bk s pw (Some '''') options) = Inr (bcrypt_hash bk pw cost)"
    by (simp add: hash_bcrypt_unfold[OF e] Let_def) blast
  have 4: "fst (hash bk s pw (Some '''') options) = Inr (bcrypt_hash bk pw (Some g))"
    if "options \<noteq> Some (next_addr s) \<and> globalOptions_bcrypt s \<noteq> next_addr s \<and>
        get_prop s (globalOptions_bcrypt s) ''cost'' = Some g"
    using that hash_default_cost[OF e, of options s g bk pw] by simp
  have 5: "needsRehash bk s h (Some '''') options = needsRehash bk s h None options"
    "needsRehash bk s h (Some '''') options = needsRehash bk s h (Some ''bcrypt'') options"
    by (simp_all add: needsRehash_def default_algo_def DEFAULT_ALGO_def split: sum.splits)
  have 6: "needsRehash bk s h (Some '''') options =
        Inr (tag \<noteq> ''2y'' \<or>
             js_lt (Some c) (js_or (props s options ''cost'') (get_prop s (globalOptions_bcrypt s) ''cost'')))"
    if "getInfo bk h = Inr \<lparr>info_algo = ''bcrypt'', info_id = tag, info_options = [(''cost'', c)]\<rparr>"
    using that by (cases options) (simp_all add: needsRehash_def e props_def get_prop_def)
  have 7: "needsRehash bk s h (Some '''') options = Inr True"
    if "getInfo bk h = Inr \<lparr>info_algo = ''unknown'', info_id = ''unknown'', info_options = []\<rparr>"
    using that by (simp add: needsRehash_def e)
  from 1 2 3 4 5 6 7 show ?thesis
    by (intro conjI impI) blast+
qed

theorem falsy_arguments_are_absent_witness:
  "get_prop (example_state [(''cost'', 0)]) 1 ''cost'' = Some 0 \<and>
   getInfo reference_module example_hash =
     Inr \<lparr>info_algo = ''bcrypt'', info_id = ''2y'', info_options = [(''cost'', 7)]\<rparr> \<and>
   default_algo (Some '''') = ''bcrypt'' \<and>
   get_prop (example_state [(''cost'', 0)]) (globalOptions_bcrypt (example_state [(''cost'', 0)])) ''cost'' = Some 10 \<and>
   needsRehash reference_module (example_state [(''cost'', 0)]) example_hash (Some '''') (Some 1) = Inr True \<and>
   Some 1 \<noteq> Some (next_addr (example_state [(''cost'', 0)])) \<and>
   globalOptions_bcrypt (example_state [(''cost'', 0)]) \<noteq> next_addr (example_state [(''cost'', 0)]) \<and>
   fst (hash reference_module (example_state [(''cost'', 0)]) ''secret'' (Some '''') (Some 1)) =
     Inr (bcrypt_hash reference_module ''secret'' (Some 10)) \<and>
   bcrypt_hash reference_module ''secret'' (Some 10) = Resolved (''$2y$10$'' @ reference_payload ''secret'')"
proof -
  let ?s = "example_state [(''cost'', 0)]"
  have z: "get_prop ?s 1 ''cost'' = Some 0" by code_simp
  have d: "default_algo (Some '''') = ''bcrypt''" by code_simp
  have g: "get_prop ?s (globalOptions_bcrypt ?s) ''cost'' = Some 10" by code_simp
  have o: "Some 1 \<noteq> Some (next_addr ?s)" by code_simp
  have n: "globalOptions_bcrypt ?s \<noteq> next_addr ?s" by code_simp
  have r: "needsRehash reference_module ?s example_hash (Some '''') (Some 1) =
           Inr (''2y'' \<noteq> ''2y'' \<or> js_lt (Some 7) (get_prop ?s (globalOptions_bcrypt ?s) ''cost''))"
    using falsy_arguments_are_absent[of ?s 1 reference_module example_hash "Some ''''" "''2y''" 7]
      z d example_decode by blast
  have t: "needsRehash reference_module ?s example_hash (Some '''') (Some 1) = Inr True"
    using r g by (simp add: js_lt_def)
  have h: "fst (hash reference_module ?s ''secret'' (Some '''') (Some 1)) =
     Inr (bcrypt_hash reference_module ''secret'' (Some 10))"
    using falsy_arguments_are_absent[of ?s 1 reference_module example_hash "Some ''''" "''2y''" 7 "''secret''" "Some 1" 10]
      o n g by blast
  have p: "bcrypt_hash reference_module ''secret'' (Some 10) = Resolved (''$2y$10$'' @ reference_payload ''secret'')"
    by code_simp
  show ?thesis
    by (intro conjI; fact z example_decode d g t o n h p)
qed

end
